theory Spec2Isabelle
  imports Complex_Main
begin

section \<open>The longitudinal vehicle model\<close>

text \<open>
  The notebook \<^verbatim>\<open>Longitudinal_Vehicle_Model.ipynb\<close> defines a class \<^verbatim>\<open>Vehicle\<close> with
  thirteen parameters, five state variables, a method \<^verbatim>\<open>reset\<close> and a method \<^verbatim>\<open>step\<close>,
  and drives it from three loops. Python floats are idealised as real numbers: rounding
  and overflow are not modelled.

  The object is a record with one field per attribute, under the attribute's name.
  One further field records how the numbers are held, because Python's division depends
  on it: \<^verbatim>\<open>__init__\<close> and \<^verbatim>\<open>reset\<close> assign Python integers, for which division by zero
  raises \<^verbatim>\<open>ZeroDivisionError\<close>; \<^verbatim>\<open>step\<close> computes \<^verbatim>\<open>f_g\<close> with \<^verbatim>\<open>np.sin\<close>, a
  \<^verbatim>\<open>numpy.float64\<close>, and everything it stores afterwards (\<^verbatim>\<open>w_e_dot\<close>, \<^verbatim>\<open>a\<close>, \<^verbatim>\<open>w_e\<close>,
  \<^verbatim>\<open>v\<close>, \<^verbatim>\<open>x\<close>) is a \<^verbatim>\<open>numpy.float64\<close>, for which division by zero gives \<^verbatim>\<open>inf\<close> or
  \<^verbatim>\<open>nan\<close> and a warning, no exception. The field \<open>numpy_scalars\<close> is true when \<^verbatim>\<open>w_e\<close>
  or \<^verbatim>\<open>v\<close> holds a \<^verbatim>\<open>numpy.float64\<close>.
\<close>

record vehicle =
  a_0 :: real
  a_1 :: real
  a_2 :: real
  GR :: real
  r_e :: real
  J_e :: real
  m :: real
  g :: real
  c_a :: real
  c_r1 :: real
  c :: real
  F_max :: real
  x :: real
  v :: real
  a :: real
  w_e :: real
  w_e_dot :: real
  sample_time :: real
  numpy_scalars :: bool

datatype py_error = ZeroDivisionError

text \<open>
  A call either returns, leaving the updated object (\<open>Inr\<close>), or raises, leaving the
  object as it was updated up to the raise (\<open>Inl\<close>).
\<close>

type_synonym 'r result = "(py_error \<times> vehicle) + 'r"

text \<open>\<^verbatim>\<open>Vehicle()\<close>: the object that \<^verbatim>\<open>__init__\<close> builds.\<close>

definition Vehicle :: vehicle where
  "Vehicle =
     \<lparr> a_0 = 400, a_1 = 0.1, a_2 = - 0.0002,
       GR = 0.35, r_e = 0.3, J_e = 10, m = 2000, g = 9.81,
       c_a = 1.36, c_r1 = 0.01,
       c = 10000, F_max = 10000,
       x = 0, v = 5, a = 0, w_e = 100, w_e_dot = 0,
       sample_time = 0.01,
       numpy_scalars = False \<rparr>"

definition reset :: "vehicle \<Rightarrow> vehicle" where
  "reset self =
     self\<lparr> x := 0, v := 5, a := 0, w_e := 100, w_e_dot := 0, numpy_scalars := False \<rparr>"

text \<open>
  \<^verbatim>\<open>step(throttle, alpha)\<close>, statement by statement. The slip ratio divides by
  \<^verbatim>\<open>self.v\<close> with no test before it. With Python numbers and \<open>v = 0\<close> the division raises,
  after \<^verbatim>\<open>self.w_e_dot\<close> was assigned. With numpy scalars and \<open>v = 0\<close> the quotient is
  \<^verbatim>\<open>inf\<close> or \<^verbatim>\<open>nan\<close>, \<^verbatim>\<open>abs(s) < 1\<close> is false and \<^verbatim>\<open>F_x\<close> is \<^verbatim>\<open>self.F_max\<close>.

  The two other divisions, by \<^verbatim>\<open>self.J_e\<close> and by \<^verbatim>\<open>self.m\<close>, have a numpy numerator
  (\<^verbatim>\<open>f_load\<close> contains \<^verbatim>\<open>np.sin(alpha)\<close>): a zero divisor would store \<^verbatim>\<open>inf\<close> or \<^verbatim>\<open>nan\<close>,
  which a real number cannot represent. \<^verbatim>\<open>__init__\<close> sets them to 10 and 2000 and
  nothing assigns them afterwards; the theorems below that depend on these quotients
  assume the divisors nonzero.
\<close>

definition step :: "vehicle \<Rightarrow> real \<Rightarrow> real \<Rightarrow> vehicle result" where
  "step self throttle alpha =
     (let f_aero = c_a self * (v self)\<^sup>2;
          r_x = c_r1 self * v self;
          f_g = m self * g self * sin alpha;
          f_load = f_aero + r_x + f_g;
          T_e = throttle * (a_0 self + a_1 self * w_e self + a_2 self * (w_e self)\<^sup>2);
          self1 = self\<lparr> w_e_dot := (T_e - GR self * r_e self * f_load) / J_e self \<rparr>;
          w_w = GR self1 * w_e self1
      in if v self1 = 0 \<and> \<not> numpy_scalars self1 then Inl (ZeroDivisionError, self1)
         else
           let F_x = (if v self1 = 0 then F_max self1
                      else let s = (w_w * r_e self1 - v self1) / v self1
                           in if \<bar>s\<bar> < 1 then c self1 * s else F_max self1);
               self2 = self1\<lparr> a := (F_x - f_load) / m self1 \<rparr>;
               self3 = self2\<lparr> w_e := w_e self2 + w_e_dot self2 * sample_time self2 \<rparr>;
               self4 = self3\<lparr> v := v self3 + a self3 * sample_time self3 \<rparr>;
               self5 = self4\<lparr> x := x self4 + (v self4 * sample_time self4
                                         - 0.5 * a self4 * (sample_time self4)\<^sup>2) \<rparr>
           in Inr (self5\<lparr> numpy_scalars := True \<rparr>))"

text \<open>The object after a call, whether the call returned or raised.\<close>

fun model_after :: "vehicle result \<Rightarrow> vehicle" where
  "model_after (Inl (e, self)) = self"
| "model_after (Inr self) = self"

text \<open>The parameter attributes of an object, in the order \<^verbatim>\<open>__init__\<close> assigns them.\<close>

definition parameters :: "vehicle \<Rightarrow> real list" where
  "parameters self =
     [a_0 self, a_1 self, a_2 self, GR self, r_e self, J_e self, m self, g self,
      c_a self, c_r1 self, c self, F_max self, sample_time self]"

text \<open>The state variables \<open>(x, v, a, w_e, w_e_dot)\<close>.\<close>

definition state_vars :: "vehicle \<Rightarrow> real \<times> real \<times> real \<times> real \<times> real" where
  "state_vars self = (x self, v self, a self, w_e self, w_e_dot self)"

text \<open>
  A loop \<^verbatim>\<open>for (throttle, alpha) in inputs: model.step(throttle, alpha)\<close>; an exception
  ends it.
\<close>

fun steps :: "vehicle \<Rightarrow> (real \<times> real) list \<Rightarrow> vehicle result" where
  "steps model [] = Inr model"
| "steps model ((throttle, alpha) # inputs) =
     (case step model throttle alpha of
        Inl e \<Rightarrow> Inl e
      | Inr model' \<Rightarrow> steps model' inputs)"

section \<open>The scenario driver\<close>

text \<open>
  The notebook's seventh cell builds a throttle array, resets the model and steps it 2000
  times, choosing the incline angle from the model's position. \<^verbatim>\<open>np.arange(start, stop,
  step)\<close> has \<open>\<lceil>(stop - start) / step\<rceil>\<close> elements \<open>start + k * step\<close>.
\<close>

definition arange :: "real \<Rightarrow> real \<Rightarrow> real \<Rightarrow> real list" where
  "arange start stop stp =
     map (\<lambda>k. start + real k * stp) [0..<nat \<lceil>(stop - start) / stp\<rceil>]"

definition alpha1 :: real where "alpha1 = arctan (3 / 60)"

definition alpha2 :: real where "alpha2 = arctan 0.1"

text \<open>
  \<^verbatim>\<open>t_data\<close> starts as the time axis \<^verbatim>\<open>np.arange(0, 20, 0.01)\<close> and is overwritten with the
  throttle: \<^verbatim>\<open>t_data[0] = 0.2\<close>, a loop over \<^verbatim>\<open>range(1, 500)\<close> adding 0.0006 to the
  previous entry, the slice \<^verbatim>\<open>t_data[500:1501] = 0.5\<close>, and a loop over
  \<^verbatim>\<open>range(1501, 2000)\<close> subtracting 0.001 from the previous entry. The array has 2000
  entries (\<open>length_arange_20\<close>), so no index is out of range.
\<close>

definition t_data :: "real list" where
  "t_data =
     (let t0 = arange 0 20 0.01;
          t1 = t0[0 := 0.2];
          t2 = fold (\<lambda>x t. t[x := t ! (x - 1) + 0.0006]) [1..<500] t1;
          t3 = map (\<lambda>k. if 500 \<le> k \<and> k < 1501 then 0.5 else t2 ! k) [0..<length t2];
          t4 = fold (\<lambda>y t. t[y := t ! (y - 1) - 0.001]) [1501..<2000] t3
      in t4)"

text \<open>The time axis that the cell keeps for plotting, \<^verbatim>\<open>ti_data\<close>.\<close>

definition ti_data :: "real list" where
  "ti_data = arange 0 20 0.01"

text \<open>
  The loop \<^verbatim>\<open>for i in range(t_data.shape[0])\<close>: it stores the velocity and the position
  in \<^verbatim>\<open>v1_data[i]\<close> and \<^verbatim>\<open>x_data[i]\<close>, then calls \<^verbatim>\<open>step\<close> with \<^verbatim>\<open>alpha1\<close> when
  \<^verbatim>\<open>model.x < 60\<close>, with \<^verbatim>\<open>alpha2\<close> when \<^verbatim>\<open>model.x < 150\<close>, and with 0 otherwise. An
  exception ends the loop.
\<close>

fun scenario_loop ::
  "real list \<Rightarrow> nat list \<Rightarrow> vehicle \<times> real list \<times> real list
     \<Rightarrow> (vehicle \<times> real list \<times> real list) result" where
  "scenario_loop t [] (model, x_data, v1_data) = Inr (model, x_data, v1_data)"
| "scenario_loop t (i # rest) (model, x_data, v1_data) =
     (let v1_data = v1_data[i := v model];
          x_data = x_data[i := x model];
          r = (if x model < 60 then step model (t ! i) alpha1
               else if x model < 150 then step model (t ! i) alpha2
               else step model (t ! i) 0)
      in case r of
           Inl e \<Rightarrow> Inl e
         | Inr model' \<Rightarrow> scenario_loop t rest (model', x_data, v1_data))"

text \<open>
  The cell from \<^verbatim>\<open>model.reset()\<close> on; \<^verbatim>\<open>model\<close> is the object the earlier cells left
  behind, and \<^verbatim>\<open>x_data\<close> and \<^verbatim>\<open>v1_data\<close> start as \<^verbatim>\<open>np.zeros_like(t_data)\<close>.
\<close>

definition scenario :: "vehicle \<Rightarrow> (vehicle \<times> real list \<times> real list) result" where
  "scenario model =
     (let x_data = replicate (length t_data) 0;
          v1_data = replicate (length t_data) 0;
          model = reset model
      in scenario_loop t_data [0..<length t_data] (model, x_data, v1_data))"

text \<open>The array \<^verbatim>\<open>x_data\<close> after the cell has run; empty if the cell raised.\<close>

fun positions :: "(vehicle \<times> real list \<times> real list) result \<Rightarrow> real list" where
  "positions (Inl e) = []"
| "positions (Inr (model, x_data, v1_data)) = x_data"

text \<open>
  The index of the first sample that has reached a level: the number of leading samples
  below it. The sample with index \<open>i\<close> is taken at the time \<open>ti_data ! i\<close>.
\<close>

definition first_crossing :: "real \<Rightarrow> real list \<Rightarrow> nat" where
  "first_crossing level xs = length (takeWhile (\<lambda>y. y < level) xs)"

text \<open>
  The throttle profile in the specification's words, as a function of the time in
  seconds: from 0.2 to 0.5 over the first 3 s, 0.5 for 10 s, then down to 0 over 5 s.
  It is compared with \<open>t_data\<close> below.
\<close>

definition documented_throttle :: "real \<Rightarrow> real" where
  "documented_throttle t =
     (if t \<le> 3 then 0.2 + (0.5 - 0.2) * (t / 3)
      else if t \<le> 13 then 0.5
      else if t \<le> 18 then 0.5 - 0.5 * ((t - 13) / 5)
      else 0)"

section \<open>Enclosures of the scenario run\<close>

text \<open>
  The incline angles make the run irrational (\<open>sin (arctan (3 / 60)) = 1 / sqrt 401\<close>),
  so the position after several hundred steps is bounded, not computed: an integer box
  \<open>(XL, XU, VL, VU, WL, WU)\<close> stands for the states with
  \<open>XL \<le> scale * x \<le> XU\<close>, \<open>VL \<le> scale * v \<le> VU\<close> and \<open>WL \<le> scale * w_e \<le> WU\<close>, and
  \<open>istep\<close> maps a box to a box that contains every state \<open>step\<close> can reach from it with
  the constructor's parameters. Lower bounds round down, upper bounds round up
  (\<open>cdiv\<close>). The definitions of this section serve the proofs only.
\<close>

definition cdiv :: "int \<Rightarrow> int \<Rightarrow> int" where
  "cdiv n b = - ((- n) div b)"

definition scale :: int where "scale = 10000000"

type_synonym box = "int \<times> int \<times> int \<times> int \<times> int \<times> int"

text \<open>
  \<open>TN\<close> is the throttle in units of 1/10000, \<open>GL\<close> and \<open>GU\<close> bound the scaled grade force
  \<open>scale * m * g * sin alpha\<close>. \<open>FLO, FHI\<close> bound the scaled load force, \<open>QLO, QHI\<close> the
  scaled torque curve \<open>a_0 + a_1 * w_e + a_2 * w_e\<^sup>2\<close>, which increases up to 250 rad/s,
  and \<open>FXLO, FXHI\<close> the scaled tire force, which for positive \<open>v\<close> and \<open>w_e\<close> is
  \<open>min (c * s) F_max\<close>.
\<close>

definition istep :: "int \<Rightarrow> int \<Rightarrow> int \<Rightarrow> box \<Rightarrow> box option" where
  "istep TN GL GU b =
    (case b of (XL, XU, VL, VU, WL, WU) \<Rightarrow>
      if 0 < VL \<and> 0 < WL \<and> WU \<le> 250 * scale then
        let FLO = (136 * VL * VL + scale * VL) div (100 * scale) + GL;
            FHI = cdiv (136 * VU * VU + scale * VU) (100 * scale) + GU;
            QLO = 400 * scale + (1000 * scale * WL - 2 * WL * WL) div (10000 * scale);
            QHI = 400 * scale + cdiv (1000 * scale * WU - 2 * WU * WU) (10000 * scale);
            FXLO = min ((1050 * scale * WL) div VU - 10000 * scale) (10000 * scale);
            FXHI = min (cdiv (1050 * scale * WU) VL - 10000 * scale) (10000 * scale)
        in Some (XL + (400000 * VL + FXLO - FHI) div 40000000,
                 XU + cdiv (400000 * VU + FXHI - FLO) 40000000,
                 VL + (FXLO - FHI) div 200000,
                 VU + cdiv (FXHI - FLO) 200000,
                 WL + (TN * QLO - 1050 * FHI) div 10000000,
                 WU + cdiv (TN * QHI - 1050 * FLO) 10000000)
      else None)"

text \<open>The throttle of sample \<open>i\<close> in units of 1/10000, for \<open>i \<le> 1500\<close>.\<close>

definition throttle_num :: "nat \<Rightarrow> int" where
  "throttle_num i = (if i < 500 then 2000 + 6 * int i else 5000)"

text \<open>Bounds of \<open>scale * 19620 * sin alpha1\<close>, which is 9797760444.39...\<close>

definition G1L :: int where "G1L = 9797760444"

definition G1U :: int where "G1U = 9797760445"

text \<open>
  The boxes of the samples \<open>i\<close> to \<open>j\<close>, as long as every box lies below 60 m, where the
  driver passes \<open>alpha1\<close>.
\<close>

function ibox_from :: "nat \<Rightarrow> nat \<Rightarrow> box \<Rightarrow> box option" where
  "ibox_from i j b =
     (if i < j then
        if fst (snd b) < 60 * scale then
          (case istep (throttle_num i) G1L G1U b of
             None \<Rightarrow> None
           | Some b' \<Rightarrow> ibox_from (i + 1) j b')
        else None
      else Some b)"
  by pat_completeness auto
termination by (relation "measure (\<lambda>(i, j, b). j - i)") auto

declare ibox_from.simps [simp del]

text \<open>The object at the start of iteration \<open>k\<close> of the driver loop.\<close>

primrec model_at :: "vehicle \<Rightarrow> nat \<Rightarrow> vehicle" where
  "model_at model 0 = reset model"
| "model_at model (Suc k) =
     model_after
       (let mk = model_at model k
        in if x mk < 60 then step mk (t_data ! k) alpha1
           else if x mk < 150 then step mk (t_data ! k) alpha2
           else step mk (t_data ! k) 0)"

definition inbox :: "box \<Rightarrow> vehicle \<Rightarrow> bool" where
  "inbox b self =
     (case b of (XL, XU, VL, VU, WL, WU) \<Rightarrow>
        parameters self = parameters Vehicle
        \<and> real_of_int XL \<le> real_of_int scale * x self
        \<and> real_of_int scale * x self \<le> real_of_int XU
        \<and> real_of_int VL \<le> real_of_int scale * v self
        \<and> real_of_int scale * v self \<le> real_of_int VU
        \<and> real_of_int WL \<le> real_of_int scale * w_e self
        \<and> real_of_int scale * w_e self \<le> real_of_int WU)"

section \<open>Basic facts\<close>

lemma step_parameters: "parameters (model_after (step self throttle alpha)) = parameters self"
  by (simp add: step_def parameters_def Let_def)

lemma steps_parameters: "parameters (model_after (steps model inputs)) = parameters model"
proof (induction inputs arbitrary: model)
  case Nil
  show ?case by simp
next
  case (Cons i inputs)
  obtain throttle alpha where i: "i = (throttle, alpha)" by (cases i)
  show ?case
  proof (cases "step model throttle alpha")
    case (Inl e)
    obtain err self' where e: "e = (err, self')" by (cases e)
    have "parameters self' = parameters model"
      using step_parameters [of model throttle alpha] Inl e by simp
    then show ?thesis using Inl e i by simp
  next
    case (Inr model')
    have "parameters model' = parameters model"
      using step_parameters [of model throttle alpha] Inr by simp
    then show ?thesis using Inr i Cons.IH [of model'] by simp
  qed
qed

lemma reset_parameters: "parameters (reset self) = parameters self"
  by (simp add: reset_def parameters_def)

lemma reset_eq_Vehicle:
  assumes "parameters self = parameters Vehicle"
  shows "reset self = Vehicle"
  using assms by (cases self) (simp add: reset_def parameters_def Vehicle_def)

section \<open>The position update\<close>

text \<open>
  C1 (as amended). For every pre-call state from which \<open>step\<close> returns and every input,
  the velocity is updated first, \<open>v_new = v_old + a * dt\<close>, and the position update then
  reads the updated velocity: \<open>x_new = x_old + v_new * dt - 0.5 * a * dt\<^sup>2\<close>, where \<open>a\<close>
  is the acceleration computed in this step. In terms of the velocity from before the
  step this is \<open>x_old + v_old * dt + 0.5 * a * dt\<^sup>2\<close>.
\<close>

theorem step_position_update:
  assumes "v self \<noteq> 0 \<or> numpy_scalars self"
  shows "\<exists>self'. step self throttle alpha = Inr self'
           \<and> v self' = v self + a self' * sample_time self
           \<and> x self' = x self + (v self' * sample_time self
                                   - 0.5 * a self' * (sample_time self)\<^sup>2)
           \<and> x self' = x self + v self * sample_time self
                          + 0.5 * a self' * (sample_time self)\<^sup>2"
  using assms by (auto simp add: step_def Let_def power2_eq_square algebra_simps)

theorem step_position_update_witness:
  "v Vehicle \<noteq> 0
   \<and> (\<exists>self'. step Vehicle 0 0 = Inr self'
           \<and> v self' = v Vehicle + a self' * sample_time Vehicle
           \<and> x self' = x Vehicle + (v self' * sample_time Vehicle
                                      - 0.5 * a self' * (sample_time Vehicle)\<^sup>2)
           \<and> x self' = x Vehicle + v Vehicle * sample_time Vehicle
                          + 0.5 * a self' * (sample_time Vehicle)\<^sup>2)"
proof -
  have nz: "v Vehicle \<noteq> 0" by (simp add: Vehicle_def)
  then have h: "v Vehicle \<noteq> 0 \<or> numpy_scalars Vehicle" by simp
  show ?thesis using nz step_position_update [OF h, of 0 0] by simp
qed

text \<open>
  The claim as written has the position update read the velocity from before the step,
  \<open>x_new = x_old + v_old * dt - 0.5 * a * dt\<^sup>2\<close>. After \<^verbatim>\<open>step(0, 0)\<close> on a new vehicle the
  stored position is 0.05024914875, and that formula gives 0.04975085125.
\<close>

theorem step_position_old_velocity_counterexample:
  "x (model_after (step Vehicle 0 0)) \<noteq>
     x Vehicle + v Vehicle * sample_time Vehicle
       - 0.5 * a (model_after (step Vehicle 0 0)) * (sample_time Vehicle)\<^sup>2"
  by (simp add: step_def Vehicle_def Let_def power2_eq_square)

section \<open>The first step without throttle\<close>

text \<open>
  C2 (as amended). \<^verbatim>\<open>step(0, 0)\<close> on the default initial state returns with a strictly
  positive stored acceleration, \<open>a = 4.982975\<close> (the slip ratio is 1.1, so the tire force
  is \<open>F_max\<close> and exceeds the load 34.05), and the velocity grows from 5 to 5.04982975.
\<close>

theorem no_throttle_first_step:
  "step Vehicle 0 0 = Inr (model_after (step Vehicle 0 0))
   \<and> a (model_after (step Vehicle 0 0)) = 4.982975
   \<and> 0 < a (model_after (step Vehicle 0 0))
   \<and> v (model_after (step Vehicle 0 0)) = 5.04982975
   \<and> v Vehicle < v (model_after (step Vehicle 0 0))"
  by (simp add: step_def Vehicle_def Let_def power2_eq_square)

text \<open>
  The claim as written: after \<^verbatim>\<open>step(0, 0)\<close> on the default initial state, \<open>a < 0\<close> and
  \<open>v < 5\<close>. Neither holds.
\<close>

theorem no_throttle_first_step_counterexample:
  "\<not> (a (model_after (step Vehicle 0 0)) < 0 \<or> v (model_after (step Vehicle 0 0)) < 5)"
  by (simp add: step_def Vehicle_def Let_def power2_eq_square)

section \<open>The division by the velocity\<close>

text \<open>
  C3 (as amended). \<open>step\<close> has no guard for \<open>v = 0\<close>. When the pre-call velocity is 0 and
  the state holds Python numbers (as \<^verbatim>\<open>__init__\<close> and \<^verbatim>\<open>reset\<close> assign them), the slip
  ratio's division raises \<^verbatim>\<open>ZeroDivisionError\<close> for every throttle and incline angle,
  after \<^verbatim>\<open>w_e_dot\<close> was stored and with no other attribute changed. \<open>step\<close> returns
  whenever \<open>v \<noteq> 0\<close>, and also when \<open>v = 0\<close> is held as a numpy scalar (as after any
  earlier step): the quotient is then \<^verbatim>\<open>inf\<close> or \<^verbatim>\<open>nan\<close> and the tire force is \<open>F_max\<close>.
\<close>

theorem step_division_unguarded:
  "(v self = 0 \<and> \<not> numpy_scalars self \<longrightarrow>
      isl (step self throttle alpha)
      \<and> fst (projl (step self throttle alpha)) = ZeroDivisionError
      \<and> model_after (step self throttle alpha) =
          self\<lparr> w_e_dot := w_e_dot (model_after (step self throttle alpha)) \<rparr>)
   \<and> (v self \<noteq> 0 \<or> numpy_scalars self \<longrightarrow> \<not> isl (step self throttle alpha))
   \<and> (v self = 0 \<and> numpy_scalars self \<and> m self \<noteq> 0 \<longrightarrow>
        m self * a (model_after (step self throttle alpha))
          + (c_a self * (v self)\<^sup>2 + c_r1 self * v self + m self * g self * sin alpha)
        = F_max self)"
  by (simp add: step_def Let_def)

theorem step_division_unguarded_witness:
  "v (Vehicle\<lparr> v := 0 \<rparr>) = 0
   \<and> \<not> numpy_scalars (Vehicle\<lparr> v := 0 \<rparr>)
   \<and> isl (step (Vehicle\<lparr> v := 0 \<rparr>) (1/5) 0)
   \<and> fst (projl (step (Vehicle\<lparr> v := 0 \<rparr>) (1/5) 0)) = ZeroDivisionError
   \<and> v Vehicle \<noteq> 0
   \<and> \<not> isl (step Vehicle (1/5) 0)
   \<and> numpy_scalars (Vehicle\<lparr> v := 0, numpy_scalars := True \<rparr>)
   \<and> \<not> isl (step (Vehicle\<lparr> v := 0, numpy_scalars := True \<rparr>) (1/5) 0)
   \<and> m Vehicle * a (model_after (step (Vehicle\<lparr> v := 0, numpy_scalars := True \<rparr>) (1/5) 0))
       = F_max Vehicle"
proof -
  have py: "v (Vehicle\<lparr> v := 0 \<rparr>) = 0 \<and> \<not> numpy_scalars (Vehicle\<lparr> v := 0 \<rparr>)"
    by (simp add: Vehicle_def)
  have mv: "v Vehicle \<noteq> 0 \<or> numpy_scalars Vehicle"
    by (simp add: Vehicle_def)
  have np: "v (Vehicle\<lparr> v := 0, numpy_scalars := True \<rparr>) = 0
            \<and> numpy_scalars (Vehicle\<lparr> v := 0, numpy_scalars := True \<rparr>)
            \<and> m (Vehicle\<lparr> v := 0, numpy_scalars := True \<rparr>) \<noteq> 0"
    by (simp add: Vehicle_def)
  have "isl (step (Vehicle\<lparr> v := 0 \<rparr>) (1/5) 0)
        \<and> fst (projl (step (Vehicle\<lparr> v := 0 \<rparr>) (1/5) 0)) = ZeroDivisionError"
    using py step_division_unguarded [of "Vehicle\<lparr> v := 0 \<rparr>" "1/5" 0] by blast
  moreover have "\<not> isl (step Vehicle (1/5) 0)"
    using mv step_division_unguarded [of Vehicle "1/5" 0] by blast
  moreover have "\<not> isl (step (Vehicle\<lparr> v := 0, numpy_scalars := True \<rparr>) (1/5) 0)"
    using np step_division_unguarded [of "Vehicle\<lparr> v := 0, numpy_scalars := True \<rparr>" "1/5" 0]
    by blast
  moreover have "m Vehicle
        * a (model_after (step (Vehicle\<lparr> v := 0, numpy_scalars := True \<rparr>) (1/5) 0))
      = F_max Vehicle"
    using np step_division_unguarded [of "Vehicle\<lparr> v := 0, numpy_scalars := True \<rparr>" "1/5" 0]
    by simp
  ultimately show ?thesis
    using py np by (simp add: Vehicle_def)
qed

text \<open>
  The claim as written has the case \<open>v = 0\<close> guarded, so that the division never raises.
  A vehicle as \<^verbatim>\<open>__init__\<close> builds it, with \<^verbatim>\<open>v\<close> set to 0: \<^verbatim>\<open>step(0, 0)\<close> raises
  \<^verbatim>\<open>ZeroDivisionError\<close>; the stored \<^verbatim>\<open>w_e_dot\<close> is 0 again, so the object is unchanged.
\<close>

theorem step_division_unguarded_counterexample:
  "step (Vehicle\<lparr> v := 0 \<rparr>) 0 0 = Inl (ZeroDivisionError, Vehicle\<lparr> v := 0 \<rparr>)"
  by (simp add: step_def Vehicle_def Let_def)

section \<open>The tire force\<close>

text \<open>
  C4. For every pre-call state with \<open>v \<noteq> 0\<close> and every input, \<open>step\<close> returns, and the
  tire force it uses (the stored acceleration times the mass, plus the load force) is
  \<open>c * s\<close> when \<open>\<bar>s\<bar> < 1\<close> and \<open>F_max\<close> when \<open>\<bar>s\<bar> \<ge> 1\<close>, for
  \<open>s = (GR * w_e * r_e - v) / v\<close>; \<open>F_max\<close> is used for \<open>s \<le> -1\<close> as for \<open>s \<ge> 1\<close>.
  When \<open>c = F_max\<close>, as \<^verbatim>\<open>__init__\<close> sets them, the tire force as a function of the slip
  ratio tends to its value at 1 as \<open>s\<close> approaches 1 from below.
\<close>

theorem step_tire_force:
  assumes "v self \<noteq> 0" and "m self \<noteq> 0"
  shows "let s = (GR self * w_e self * r_e self - v self) / v self;
             f_load = c_a self * (v self)\<^sup>2 + c_r1 self * v self + m self * g self * sin alpha;
             F_x = (\<lambda>\<sigma>. if \<bar>\<sigma>\<bar> < 1 then c self * \<sigma> else F_max self)
         in (\<exists>self'. step self throttle alpha = Inr self'
               \<and> m self * a self' + f_load = F_x s
               \<and> (\<bar>s\<bar> < 1 \<longrightarrow> m self * a self' + f_load = c self * s)
               \<and> (1 \<le> s \<longrightarrow> m self * a self' + f_load = F_max self)
               \<and> (s \<le> - 1 \<longrightarrow> m self * a self' + f_load = F_max self))
            \<and> (c self = F_max self \<longrightarrow> (F_x \<longlongrightarrow> F_x 1) (at_left 1))"
proof -
  let ?F = "\<lambda>\<sigma>. if \<bar>\<sigma>\<bar> < 1 then c self * \<sigma> else F_max self"
  have cont: "(?F \<longlongrightarrow> ?F 1) (at_left 1)" if eq: "c self = F_max self"
  proof -
    have lin: "((\<lambda>\<sigma>. c self * \<sigma>) \<longlongrightarrow> c self * 1) (at_left 1)"
      by (intro tendsto_intros)
    have ev: "eventually (\<lambda>\<sigma>. c self * \<sigma> = ?F \<sigma>) (at_left (1::real))"
      unfolding eventually_at_left_field
      by (rule exI [of _ 0]) auto
    have "(?F \<longlongrightarrow> c self * 1) (at_left 1)"
      using lin ev by (rule Lim_transform_eventually)
    then show ?thesis using eq by simp
  qed
  define s where "s = (GR self * w_e self * r_e self - v self) / v self"
  define f_load where
    "f_load = c_a self * (v self)\<^sup>2 + c_r1 self * v self + m self * g self * sin alpha"
  have "\<exists>self'. step self throttle alpha = Inr self' \<and> m self * a self' + f_load = ?F s"
    using assms by (simp add: step_def Let_def s_def f_load_def)
  then obtain self' where st: "step self throttle alpha = Inr self'"
    and force: "m self * a self' + f_load = ?F s"
    by blast
  have lin: "\<bar>s\<bar> < 1 \<longrightarrow> m self * a self' + f_load = c self * s"
    using force by simp
  have pos: "1 \<le> s \<longrightarrow> m self * a self' + f_load = F_max self"
    using force by simp
  have neg: "s \<le> - 1 \<longrightarrow> m self * a self' + f_load = F_max self"
    using force by simp
  have "\<exists>self'. step self throttle alpha = Inr self'
           \<and> m self * a self' + f_load = ?F s
           \<and> (\<bar>s\<bar> < 1 \<longrightarrow> m self * a self' + f_load = c self * s)
           \<and> (1 \<le> s \<longrightarrow> m self * a self' + f_load = F_max self)
           \<and> (s \<le> - 1 \<longrightarrow> m self * a self' + f_load = F_max self)"
    using st force lin pos neg by blast
  then show ?thesis
    unfolding Let_def s_def f_load_def using cont by blast
qed

text \<open>
  Three pre-call states: a new vehicle (slip ratio 1.1, saturated), the same at
  \<open>v = 10\<close> (slip ratio 0.05, linear) and at \<open>w_e = -100\<close> (slip ratio -3.1, saturated
  at \<open>+F_max\<close>).
\<close>

theorem step_tire_force_witness:
  "v Vehicle \<noteq> 0 \<and> m Vehicle \<noteq> 0 \<and> c Vehicle = F_max Vehicle
   \<and> (\<exists>self'. step Vehicle (1/5) 0 = Inr self' \<and> 2000 * a self' + 34.05 = 10000)
   \<and> (\<exists>self'. step (Vehicle\<lparr> v := 10 \<rparr>) (1/5) 0 = Inr self'
                \<and> 2000 * a self' + 136.1 = 500)
   \<and> (\<exists>self'. step (Vehicle\<lparr> w_e := - 100 \<rparr>) (1/5) 0 = Inr self'
                \<and> 2000 * a self' + 34.05 = 10000)
   \<and> ((\<lambda>\<sigma>::real. if \<bar>\<sigma>\<bar> < 1 then 10000 * \<sigma> else 10000) \<longlongrightarrow> 10000) (at_left 1)"
proof -
  have h: "v Vehicle \<noteq> 0" "m Vehicle \<noteq> 0" "c Vehicle = F_max Vehicle"
    by (simp_all add: Vehicle_def)
  have h10: "v (Vehicle\<lparr> v := 10 \<rparr>) \<noteq> 0" "m (Vehicle\<lparr> v := 10 \<rparr>) \<noteq> 0"
    by (simp_all add: Vehicle_def)
  have hneg: "v (Vehicle\<lparr> w_e := - 100 \<rparr>) \<noteq> 0" "m (Vehicle\<lparr> w_e := - 100 \<rparr>) \<noteq> 0"
    by (simp_all add: Vehicle_def)
  have sat: "\<exists>self'. step Vehicle (1/5) 0 = Inr self' \<and> 2000 * a self' + 34.05 = 10000"
    using step_tire_force [OF h(1,2), of 0 "1/5"]
    by (simp add: Let_def Vehicle_def power2_eq_square)
  have lim: "((\<lambda>\<sigma>::real. if \<bar>\<sigma>\<bar> < 1 then 10000 * \<sigma> else 10000) \<longlongrightarrow> 10000) (at_left 1)"
    using step_tire_force [OF h(1,2), of 0 "1/5"] h(3)
    by (simp add: Let_def Vehicle_def cong: if_cong)
  have lin: "\<exists>self'. step (Vehicle\<lparr> v := 10 \<rparr>) (1/5) 0 = Inr self'
                \<and> 2000 * a self' + 136.1 = 500"
    using step_tire_force [OF h10, of 0 "1/5"]
    by (simp add: Let_def Vehicle_def power2_eq_square)
  have neg: "\<exists>self'. step (Vehicle\<lparr> w_e := - 100 \<rparr>) (1/5) 0 = Inr self'
                \<and> 2000 * a self' + 34.05 = 10000"
    using step_tire_force [OF hneg, of 0 "1/5"]
    by (simp add: Let_def Vehicle_def power2_eq_square)
  show ?thesis using h sat lim lin neg by blast
qed

section \<open>The engine equation\<close>

text \<open>
  C5. For every pre-call state and input, \<open>step\<close> stores the engine angular acceleration
  \<open>w_e_dot = (T_e - GR * r_e * F_load) / J_e\<close>, where
  \<open>F_load = c_a * v\<^sup>2 + c_r1 * v + m * g * sin alpha\<close> is computed from the pre-call \<open>v\<close>
  and \<open>T_e = throttle * (a_0 + a_1 * w_e + a_2 * w_e\<^sup>2)\<close> from the pre-call \<open>w_e\<close>. It
  is stored before the slip ratio is computed, so also when the call raises. When the
  call returns, the engine speed has advanced by \<open>w_e_dot * dt\<close>.
\<close>

theorem step_engine_acceleration:
  assumes "J_e self \<noteq> 0"
  shows "w_e_dot (model_after (step self throttle alpha)) =
           (throttle * (a_0 self + a_1 self * w_e self + a_2 self * (w_e self)\<^sup>2)
            - GR self * r_e self
              * (c_a self * (v self)\<^sup>2 + c_r1 self * v self + m self * g self * sin alpha))
           / J_e self
         \<and> (\<not> isl (step self throttle alpha) \<longrightarrow>
              w_e (model_after (step self throttle alpha)) =
                w_e self + w_e_dot (model_after (step self throttle alpha)) * sample_time self)"
  by (simp add: step_def Let_def)

theorem step_engine_acceleration_witness:
  "J_e Vehicle \<noteq> 0
   \<and> \<not> isl (step Vehicle (1/5) 0)
   \<and> w_e_dot (model_after (step Vehicle (1/5) 0)) = 7.802475
   \<and> w_e (model_after (step Vehicle (1/5) 0)) = 100.07802475"
proof -
  have h: "J_e Vehicle \<noteq> 0" by (simp add: Vehicle_def)
  have r: "\<not> isl (step Vehicle (1/5) 0)" by (simp add: step_def Vehicle_def Let_def)
  show ?thesis
    using h r step_engine_acceleration [OF h, of "1/5" 0]
    by (simp add: Vehicle_def power2_eq_square)
qed

section \<open>Reset\<close>

text \<open>
  C6. \<open>reset\<close> sets the state variables \<open>(x, v, a, w_e, w_e_dot)\<close> to \<open>(0, 5, 0, 100, 0)\<close>.
  After any finite sequence of \<open>step\<close> calls on a new vehicle, whether or not one of them
  raised, \<open>reset\<close> gives an object equal to a new vehicle. \<open>reset\<close> leaves every parameter
  unchanged, and resetting twice is resetting once.
\<close>

theorem reset_restores_default_state:
  "state_vars (reset self) = (0, 5, 0, 100, 0)
   \<and> reset (model_after (steps Vehicle inputs)) = Vehicle
   \<and> state_vars (reset (model_after (steps Vehicle inputs))) = state_vars Vehicle
   \<and> parameters (reset self) = parameters self
   \<and> reset (reset self) = reset self"
proof -
  have "parameters (model_after (steps Vehicle inputs)) = parameters Vehicle"
    by (rule steps_parameters)
  then have "reset (model_after (steps Vehicle inputs)) = Vehicle"
    by (rule reset_eq_Vehicle)
  moreover have "state_vars (reset self) = (0, 5, 0, 100, 0)"
    by (simp add: state_vars_def reset_def)
  moreover have "reset (reset self) = reset self"
    by (simp add: reset_def)
  ultimately show ?thesis
    by (simp add: reset_parameters)
qed

section \<open>The first step after construction or reset\<close>

text \<open>
  C10. For every throttle and incline angle, the first \<open>step\<close> on a new vehicle, or on a
  vehicle with the constructor's parameters after \<open>reset\<close>, has slip ratio
  \<open>(0.35 * 100 * 0.3 - 5) / 5 = 1.1\<close>, returns, and uses the tire force
  \<open>F_max = 10000\<close> whatever the inputs.
\<close>

theorem first_step_saturates:
  assumes "parameters self = parameters Vehicle"
  shows "reset self = Vehicle
         \<and> (GR (reset self) * w_e (reset self) * r_e (reset self) - v (reset self))
             / v (reset self) = 1.1
         \<and> step (reset self) throttle alpha = Inr (model_after (step (reset self) throttle alpha))
         \<and> m (reset self) * a (model_after (step (reset self) throttle alpha))
             + (c_a (reset self) * (v (reset self))\<^sup>2 + c_r1 (reset self) * v (reset self)
                + m (reset self) * g (reset self) * sin alpha)
           = F_max (reset self)
         \<and> F_max (reset self) = 10000"
proof -
  have eq: "reset self = Vehicle"
    using assms by (rule reset_eq_Vehicle)
  show ?thesis
    unfolding eq by (simp add: step_def Vehicle_def Let_def power2_eq_square field_simps)
qed

theorem first_step_saturates_witness:
  "parameters Vehicle = parameters Vehicle
   \<and> reset Vehicle = Vehicle
   \<and> (GR Vehicle * w_e Vehicle * r_e Vehicle - v Vehicle) / v Vehicle = 1.1
   \<and> step Vehicle (1/5) 0 = Inr (model_after (step Vehicle (1/5) 0))
   \<and> 2000 * a (model_after (step Vehicle (1/5) 0)) + 34.05 = 10000"
proof -
  have p: "parameters Vehicle = parameters Vehicle" by simp
  have eq: "reset Vehicle = Vehicle" using first_step_saturates [OF p] by simp
  show ?thesis
    using first_step_saturates [OF p, of "1/5" 0] unfolding eq
    by (simp add: Vehicle_def power2_eq_square)
qed

section \<open>The scenario's throttle and incline profiles\<close>

lemma length_arange_20: "length (arange 0 20 0.01) = 2000"
  by (simp add: arange_def)

lemma fold_ramp:
  fixes d :: real
  assumes "0 < lo" and "hi \<le> length t"
  shows "length (fold (\<lambda>k t. t[k := t ! (k - 1) + d]) [lo..<hi] t) = length t
         \<and> (\<forall>k<length t. fold (\<lambda>k t. t[k := t ! (k - 1) + d]) [lo..<hi] t ! k
               = (if lo \<le> k \<and> k < hi then t ! (lo - 1) + d * real (k + 1 - lo) else t ! k))"
  using assms(2)
proof (induction hi)
  case 0
  show ?case by simp
next
  case (Suc hi)
  let ?f = "\<lambda>k t. t[k := t ! (k - 1) + d]"
  show ?case
  proof (cases "lo \<le> hi")
    case False
    then show ?thesis by simp
  next
    case True
    let ?t' = "fold ?f [lo..<hi] t"
    have IH: "length ?t' = length t"
      "\<And>k. k < length t \<Longrightarrow> ?t' ! k
          = (if lo \<le> k \<and> k < hi then t ! (lo - 1) + d * real (k + 1 - lo) else t ! k)"
      using Suc by simp_all
    have unf: "fold ?f [lo..<Suc hi] t = ?t'[hi := ?t' ! (hi - 1) + d]"
      using True by simp
    have prev: "?t' ! (hi - 1) = t ! (lo - 1) + d * real (hi - lo)"
    proof (cases "lo = hi")
      case True
      then show ?thesis using IH(2) [of "hi - 1"] Suc.prems assms(1) by simp
    next
      case False
      then have "lo \<le> hi - 1" "hi - 1 < hi" using True by simp_all
      then show ?thesis using IH(2) [of "hi - 1"] Suc.prems
        by (simp add: Suc_diff_le)
    qed
    have "fold ?f [lo..<Suc hi] t ! k
            = (if lo \<le> k \<and> k < Suc hi then t ! (lo - 1) + d * real (k + 1 - lo) else t ! k)"
      if "k < length t" for k
    proof (cases "k = hi")
      case True
      then show ?thesis using unf IH(1) that prev \<open>lo \<le> hi\<close>
        by (simp add: Suc_diff_le algebra_simps)
    next
      case False
      then show ?thesis using unf IH that by auto
    qed
    then show ?thesis using unf IH(1) by simp
  qed
qed

lemma t_data_nth:
  "length t_data = 2000"
  "i < 500 \<Longrightarrow> t_data ! i = 0.2 + 0.0006 * real i"
  "500 \<le> i \<Longrightarrow> i \<le> 1500 \<Longrightarrow> t_data ! i = 0.5"
  "1500 < i \<Longrightarrow> i < 2000 \<Longrightarrow> t_data ! i = 0.5 - 0.001 * real (i - 1500)"
proof -
  define up where "up = (\<lambda>x t. t[x := t ! (x - 1) + (0.0006::real)])"
  define down where "down = (\<lambda>y t. t[y := t ! (y - 1) - (0.001::real)])"
  define r1 where "r1 = [1..<500::nat]"
  define r2 where "r2 = [1501..<2000::nat]"
  define t1 where "t1 = (arange 0 20 0.01)[0 := 0.2]"
  define t2 where "t2 = fold up r1 t1"
  define t3 where "t3 = map (\<lambda>k. if 500 \<le> k \<and> k < 1501 then 0.5 else t2 ! k) [0..<length t2]"
  define t4 where "t4 = fold down r2 t3"
  have td: "t_data = t4"
    unfolding t_data_def t1_def t2_def t3_def t4_def up_def down_def r1_def r2_def Let_def
    by (rule refl)
  have down': "down = (\<lambda>y t. t[y := t ! (y - 1) + (- 0.001)])"
    unfolding down_def by simp
  have l1: "length t1 = 2000" using length_arange_20 by (simp add: t1_def)
  have t1_0: "t1 ! 0 = 0.2" using length_arange_20 by (simp add: t1_def)
  have r2: "length t2 = length t1
         \<and> (\<forall>k<length t1. t2 ! k
               = (if 1 \<le> k \<and> k < 500 then t1 ! (1 - 1) + 0.0006 * real (k + 1 - 1) else t1 ! k))"
    unfolding t2_def up_def r1_def by (rule fold_ramp) (simp_all add: l1)
  have l2: "length t2 = 2000" using r2 l1 by simp
  have n2: "t2 ! k = 0.2 + 0.0006 * real k" if "k < 500" for k
  proof (cases "k = 0")
    case True
    then show ?thesis using r2 l1 t1_0 by simp
  next
    case False
    then show ?thesis using r2 l1 t1_0 that by simp
  qed
  have l3: "length t3 = 2000" by (simp add: t3_def l2)
  have n3: "t3 ! k = (if 500 \<le> k \<and> k < 1501 then 0.5 else t2 ! k)" if "k < 2000" for k
    unfolding t3_def l2 using that by (simp del: upt_rec_numeral)
  have r4: "length t4 = length t3
         \<and> (\<forall>k<length t3. t4 ! k
               = (if 1501 \<le> k \<and> k < 2000 then t3 ! (1501 - 1) + (- 0.001) * real (k + 1 - 1501)
                  else t3 ! k))"
    unfolding t4_def down' r2_def by (rule fold_ramp) (simp_all add: l3)
  show "length t_data = 2000" using td r4 l3 by simp
  show "t_data ! i = 0.2 + 0.0006 * real i" if "i < 500"
    using that td r4 l3 n3 [of i] n2 [of i] by simp
  show "t_data ! i = 0.5" if "500 \<le> i" "i \<le> 1500"
    using that td r4 l3 n3 [of i] by simp
  show "t_data ! i = 0.5 - 0.001 * real (i - 1500)" if "1500 < i" "i < 2000"
  proof -
    have "t4 ! i = t3 ! 1500 + (- 0.001) * real (i + 1 - 1501)"
      using that r4 l3 by simp
    moreover have "t3 ! 1500 = 0.5" using n3 [of 1500] by simp
    moreover have "i + 1 - 1501 = i - 1500" by simp
    ultimately show ?thesis using td by simp
  qed
qed

lemma ti_data_nth:
  assumes "i < 2000"
  shows "ti_data ! i = real i * 0.01"
  using assms unfolding ti_data_def arange_def by (simp del: upt_rec_numeral)

text \<open>
  C8 (as amended). The driver's throttle array has 2000 samples, taken 10 ms apart from
  0 s on. Read against the sample times, the throttle ramps linearly from 0.2 to 0.5
  over the first 5 s, is 0.5 for the next 10 s, and then ramps down linearly towards 0
  over the last 5 s; the last sample, at 19.99 s, is 0.001. In every iteration the loop
  stores the position and the velocity and calls \<open>step\<close> with the sample's throttle and
  with the incline angle \<open>arctan (3 / 60)\<close> while the model's position is below 60 m,
  \<open>arctan 0.1\<close> while it is at least 60 m and below 150 m, and 0 otherwise; the run
  starts from the reset model.
\<close>

theorem scenario_profiles:
  "length t_data = 2000
   \<and> (i < 2000 \<longrightarrow>
        ti_data ! i = real i * 0.01
        \<and> t_data ! i =
            (if ti_data ! i \<le> 5 then 0.2 + (0.5 - 0.2) * (ti_data ! i / 5)
             else if ti_data ! i \<le> 15 then 0.5
             else 0.5 - 0.5 * ((ti_data ! i - 15) / 5)))
   \<and> scenario_loop t (i # rest) (model, x_data, v1_data) =
       (case step model (t ! i)
               (if x model < 60 then arctan (3 / 60)
                else if x model < 150 then arctan 0.1
                else 0) of
          Inl e \<Rightarrow> Inl e
        | Inr model' \<Rightarrow>
            scenario_loop t rest (model', x_data[i := x model], v1_data[i := v model]))
   \<and> scenario model
       = scenario_loop t_data [0..<2000] (reset model, replicate 2000 0, replicate 2000 0)"
proof -
  have loop: "scenario_loop t (i # rest) (model, x_data, v1_data) =
       (case step model (t ! i)
               (if x model < 60 then arctan (3 / 60)
                else if x model < 150 then arctan 0.1
                else 0) of
          Inl e \<Rightarrow> Inl e
        | Inr model' \<Rightarrow>
            scenario_loop t rest (model', x_data[i := x model], v1_data[i := v model]))"
    by (simp add: Let_def alpha1_def alpha2_def)
  have run: "scenario model
       = scenario_loop t_data [0..<2000] (reset model, replicate 2000 0, replicate 2000 0)"
    unfolding scenario_def t_data_nth(1) Let_def by (rule refl)
  have profile: "t_data ! i =
            (if ti_data ! i \<le> 5 then 0.2 + (0.5 - 0.2) * (ti_data ! i / 5)
             else if ti_data ! i \<le> 15 then 0.5
             else 0.5 - 0.5 * ((ti_data ! i - 15) / 5))"
    and time: "ti_data ! i = real i * 0.01"
    if i: "i < 2000"
  proof -
    show time: "ti_data ! i = real i * 0.01"
      using i by (rule ti_data_nth)
    consider "i < 500" | "i = 500" | "500 < i \<and> i \<le> 1500" | "1500 < i"
      by linarith
    then show "t_data ! i =
            (if ti_data ! i \<le> 5 then 0.2 + (0.5 - 0.2) * (ti_data ! i / 5)
             else if ti_data ! i \<le> 15 then 0.5
             else 0.5 - 0.5 * ((ti_data ! i - 15) / 5))"
    proof cases
      case 1
      then show ?thesis using t_data_nth(2) [of i] time by simp
    next
      case 2
      then show ?thesis using t_data_nth(3) [of i] time by simp
    next
      case 3
      then show ?thesis using t_data_nth(3) [of i] time by simp
    next
      case 4
      then have "real (i - 1500) = real i - 1500" by simp
      then show ?thesis using 4 t_data_nth(4) [of i] time i by simp
    qed
  qed
  show ?thesis
    using t_data_nth(1) profile time loop run by blast
qed

text \<open>
  The samples at 0 s, 3 s, 4.99 s, 5 s, 15 s, 15.01 s and 19.99 s.
\<close>

theorem scenario_profiles_witness:
  "t_data ! 0 = 0.2
   \<and> ti_data ! 300 = 3
   \<and> t_data ! 300 = 0.38
   \<and> t_data ! 499 = 0.4994
   \<and> t_data ! 500 = 0.5
   \<and> t_data ! 1500 = 0.5
   \<and> t_data ! 1501 = 0.499
   \<and> ti_data ! 1999 = 19.99
   \<and> t_data ! 1999 = 0.001"
proof -
  have time: "ti_data ! i = real i * 0.01"
    and sample: "t_data ! i =
            (if real i * 0.01 \<le> 5 then 0.2 + (0.5 - 0.2) * (real i * 0.01 / 5)
             else if real i * 0.01 \<le> 15 then 0.5
             else 0.5 - 0.5 * ((real i * 0.01 - 15) / 5))"
    if "i < 2000" for i
  proof -
    have both: "ti_data ! i = real i * 0.01
        \<and> t_data ! i =
            (if ti_data ! i \<le> 5 then 0.2 + (0.5 - 0.2) * (ti_data ! i / 5)
             else if ti_data ! i \<le> 15 then 0.5
             else 0.5 - 0.5 * ((ti_data ! i - 15) / 5))"
      using that scenario_profiles [of i] by blast
    then show time: "ti_data ! i = real i * 0.01" by blast
    from both have "t_data ! i =
            (if ti_data ! i \<le> 5 then 0.2 + (0.5 - 0.2) * (ti_data ! i / 5)
             else if ti_data ! i \<le> 15 then 0.5
             else 0.5 - 0.5 * ((ti_data ! i - 15) / 5))"
      by blast
    then show "t_data ! i =
            (if real i * 0.01 \<le> 5 then 0.2 + (0.5 - 0.2) * (real i * 0.01 / 5)
             else if real i * 0.01 \<le> 15 then 0.5
             else 0.5 - 0.5 * ((real i * 0.01 - 15) / 5))"
      unfolding time .
  qed
  have "t_data ! 0 = 0.2" using sample [of 0] by simp
  moreover have "ti_data ! 300 = 3" using time [of 300] by simp
  moreover have "t_data ! 300 = 0.38" using sample [of 300] by simp
  moreover have "t_data ! 499 = 0.4994" using sample [of 499] by simp
  moreover have "t_data ! 500 = 0.5" using sample [of 500] by simp
  moreover have "t_data ! 1500 = 0.5" using sample [of 1500] by simp
  moreover have "t_data ! 1501 = 0.499" using sample [of 1501] by simp
  moreover have "ti_data ! 1999 = 19.99" using time [of 1999] by simp
  moreover have "t_data ! 1999 = 0.001" using sample [of 1999] by simp
  ultimately show ?thesis by blast
qed

text \<open>
  The claim as written has the throttle reach 0.5 after 3 s. The sample at 3 s, index
  300, is 0.38, where the documented profile is 0.5.
\<close>

theorem scenario_throttle_counterexample:
  "ti_data ! 300 = 3
   \<and> t_data ! 300 = 0.38
   \<and> documented_throttle (ti_data ! 300) = 0.5
   \<and> t_data ! 300 \<noteq> documented_throttle (ti_data ! 300)"
proof -
  have "ti_data ! 300 = 3" using ti_data_nth [of 300] by simp
  moreover have "t_data ! 300 = 0.38" using t_data_nth(2) [of 300] by simp
  moreover have "documented_throttle 3 = 0.5" by (simp add: documented_throttle_def)
  ultimately show ?thesis by simp
qed

section \<open>Bounds on one step\<close>

text \<open>
  Rounding: the integer quotient is below, and \<open>cdiv\<close> above, any real \<open>y\<close> on the right
  side of the scaled inequality.
\<close>

lemma div_lower:
  fixes y :: real
  assumes "0 < b" and "real_of_int n \<le> y * real_of_int b"
  shows "real_of_int (n div b) \<le> y"
proof -
  have "real_of_int (n div b) \<le> real_of_int n / real_of_int b"
    by (metis floor_divide_of_int_eq of_int_floor_le)
  also have "\<dots> \<le> y"
    using assms by (simp add: divide_le_eq)
  finally show ?thesis .
qed

lemma cdiv_upper:
  fixes y :: real
  assumes "0 < b" and "y * real_of_int b \<le> real_of_int n"
  shows "y \<le> real_of_int (cdiv n b)"
proof -
  have "real_of_int ((- n) div b) \<le> - y"
    using assms by (intro div_lower) simp_all
  then show ?thesis by (simp add: cdiv_def)
qed

lemma box_step_sound:
  fixes X V W G :: real
  assumes step: "istep TN GL GU (XL, XU, VL, VU, WL, WU) = Some (XL', XU', VL', VU', WL', WU')"
    and X: "real_of_int XL \<le> X" "X \<le> real_of_int XU"
    and V: "real_of_int VL \<le> V" "V \<le> real_of_int VU"
    and W: "real_of_int WL \<le> W" "W \<le> real_of_int WU"
    and G: "real_of_int GL \<le> G" "G \<le> real_of_int GU"
    and TN: "0 \<le> TN"
  defines "S \<equiv> real_of_int scale"
  defines "Fl \<equiv> (136 * V * V + S * V) / (100 * S) + G"
  defines "Q \<equiv> 400 * S + (1000 * S * W - 2 * W * W) / (10000 * S)"
  defines "Fx \<equiv> min (1050 * S * W / V - 10000 * S) (10000 * S)"
  shows "real_of_int XL' \<le> X + (400000 * V + Fx - Fl) / 40000000"
    and "X + (400000 * V + Fx - Fl) / 40000000 \<le> real_of_int XU'"
    and "real_of_int VL' \<le> V + (Fx - Fl) / 200000"
    and "V + (Fx - Fl) / 200000 \<le> real_of_int VU'"
    and "real_of_int WL' \<le> W + (real_of_int TN * Q - 1050 * Fl) / 10000000"
    and "W + (real_of_int TN * Q - 1050 * Fl) / 10000000 \<le> real_of_int WU'"
proof -
  have Spos: "0 < S" by (simp add: S_def scale_def)
  have iSpos: "0 < scale" by (simp add: scale_def)
  have chk: "0 < VL" "0 < WL" "WU \<le> 250 * scale"
    using step by (auto simp: istep_def split: if_splits)
  define FLO where "FLO = (136 * VL * VL + scale * VL) div (100 * scale) + GL"
  define FHI where "FHI = cdiv (136 * VU * VU + scale * VU) (100 * scale) + GU"
  define QLO where "QLO = 400 * scale + (1000 * scale * WL - 2 * WL * WL) div (10000 * scale)"
  define QHI where "QHI = 400 * scale + cdiv (1000 * scale * WU - 2 * WU * WU) (10000 * scale)"
  define FXLO where "FXLO = min ((1050 * scale * WL) div VU - 10000 * scale) (10000 * scale)"
  define FXHI where "FXHI = min (cdiv (1050 * scale * WU) VL - 10000 * scale) (10000 * scale)"
  have out: "XL' = XL + (400000 * VL + FXLO - FHI) div 40000000"
    "XU' = XU + cdiv (400000 * VU + FXHI - FLO) 40000000"
    "VL' = VL + (FXLO - FHI) div 200000"
    "VU' = VU + cdiv (FXHI - FLO) 200000"
    "WL' = WL + (TN * QLO - 1050 * FHI) div 10000000"
    "WU' = WU + cdiv (TN * QHI - 1050 * FLO) 10000000"
    using step chk
    by (simp_all add: istep_def Let_def FLO_def FHI_def QLO_def QHI_def FXLO_def FXHI_def)
  have VLpos: "0 < real_of_int VL" and WLpos: "0 < real_of_int WL"
    using chk by simp_all
  have Vpos: "0 < V" using VLpos V(1) by linarith
  have Wpos: "0 < W" using WLpos W(1) by linarith
  have VUpos: "0 < real_of_int VU" using Vpos V(2) by linarith
  have WU250: "real_of_int WU \<le> 250 * S"
    using chk(3) unfolding S_def by (metis of_int_le_iff of_int_mult of_int_numeral)
  txt \<open>the load force\<close>
  have VL2: "real_of_int VL * real_of_int VL \<le> V * V"
    using VLpos V(1) by (intro mult_mono) simp_all
  have VU2: "V * V \<le> real_of_int VU * real_of_int VU"
    using Vpos V(2) by (intro mult_mono) simp_all
  have "real_of_int ((136 * VL * VL + scale * VL) div (100 * scale))
          \<le> (136 * V * V + S * V) / (100 * S)"
  proof (rule div_lower)
    show "0 < 100 * scale" using iSpos by simp
    have "real_of_int (136 * VL * VL + scale * VL)
            = 136 * (real_of_int VL * real_of_int VL) + S * real_of_int VL"
      by (simp add: S_def)
    also have "\<dots> \<le> 136 * (V * V) + S * V"
      using VL2 V(1) Spos by (intro add_mono mult_left_mono) simp_all
    also have "\<dots> = (136 * V * V + S * V) / (100 * S) * real_of_int (100 * scale)"
      using Spos by (simp add: S_def)
    finally show "real_of_int (136 * VL * VL + scale * VL)
            \<le> (136 * V * V + S * V) / (100 * S) * real_of_int (100 * scale)" .
  qed
  then have FLO: "real_of_int FLO \<le> Fl"
    using G(1) by (simp add: FLO_def Fl_def)
  have "(136 * V * V + S * V) / (100 * S)
          \<le> real_of_int (cdiv (136 * VU * VU + scale * VU) (100 * scale))"
  proof (rule cdiv_upper)
    show "0 < 100 * scale" using iSpos by simp
    have "(136 * V * V + S * V) / (100 * S) * real_of_int (100 * scale) = 136 * (V * V) + S * V"
      using Spos by (simp add: S_def)
    also have "\<dots> \<le> 136 * (real_of_int VU * real_of_int VU) + S * real_of_int VU"
      using VU2 V(2) Spos by (intro add_mono mult_left_mono) simp_all
    also have "\<dots> = real_of_int (136 * VU * VU + scale * VU)"
      by (simp add: S_def)
    finally show "(136 * V * V + S * V) / (100 * S) * real_of_int (100 * scale)
            \<le> real_of_int (136 * VU * VU + scale * VU)" .
  qed
  then have FHI: "Fl \<le> real_of_int FHI"
    using G(2) by (simp add: FHI_def Fl_def)
  txt \<open>the torque curve, increasing up to 250 rad/s\<close>
  have mono: "1000 * S * a - 2 * a * a \<le> 1000 * S * b - 2 * b * b"
    if "a \<le> b" "0 \<le> a" "b \<le> 250 * S" for a b :: real
  proof -
    have "0 \<le> (b - a) * (1000 * S - 2 * (a + b))"
      using that by (intro mult_nonneg_nonneg) simp_all
    then show ?thesis by (simp add: algebra_simps)
  qed
  have "real_of_int ((1000 * scale * WL - 2 * WL * WL) div (10000 * scale))
          \<le> (1000 * S * W - 2 * W * W) / (10000 * S)"
  proof (rule div_lower)
    show "0 < 10000 * scale" using iSpos by simp
    have "real_of_int (1000 * scale * WL - 2 * WL * WL)
            = 1000 * S * real_of_int WL - 2 * real_of_int WL * real_of_int WL"
      by (simp add: S_def)
    also have "\<dots> \<le> 1000 * S * W - 2 * W * W"
      using W WLpos WU250 by (intro mono) simp_all
    also have "\<dots> = (1000 * S * W - 2 * W * W) / (10000 * S) * real_of_int (10000 * scale)"
      using Spos by (simp add: S_def)
    finally show "real_of_int (1000 * scale * WL - 2 * WL * WL)
            \<le> (1000 * S * W - 2 * W * W) / (10000 * S) * real_of_int (10000 * scale)" .
  qed
  then have QLO: "real_of_int QLO \<le> Q"
    by (simp add: QLO_def Q_def S_def)
  have "(1000 * S * W - 2 * W * W) / (10000 * S)
          \<le> real_of_int (cdiv (1000 * scale * WU - 2 * WU * WU) (10000 * scale))"
  proof (rule cdiv_upper)
    show "0 < 10000 * scale" using iSpos by simp
    have "(1000 * S * W - 2 * W * W) / (10000 * S) * real_of_int (10000 * scale)
            = 1000 * S * W - 2 * W * W"
      using Spos by (simp add: S_def)
    also have "\<dots> \<le> 1000 * S * real_of_int WU - 2 * real_of_int WU * real_of_int WU"
      using W Wpos WU250 by (intro mono) simp_all
    also have "\<dots> = real_of_int (1000 * scale * WU - 2 * WU * WU)"
      by (simp add: S_def)
    finally show "(1000 * S * W - 2 * W * W) / (10000 * S) * real_of_int (10000 * scale)
            \<le> real_of_int (1000 * scale * WU - 2 * WU * WU)" .
  qed
  then have QHI: "Q \<le> real_of_int QHI"
    by (simp add: QHI_def Q_def S_def)
  txt \<open>the tire force\<close>
  have "real_of_int ((1050 * scale * WL) div VU) \<le> 1050 * S * W / V"
  proof (rule div_lower)
    show "0 < VU" using VUpos by simp
    have "real_of_int WL * V \<le> W * real_of_int VU"
      using W(1) V(2) WLpos Vpos by (intro mult_mono) simp_all
    then have "real_of_int WL \<le> W * real_of_int VU / V"
      using Vpos by (simp add: le_divide_eq)
    then have "1050 * S * real_of_int WL \<le> 1050 * S * (W * real_of_int VU / V)"
      using Spos by (intro mult_left_mono) simp_all
    then show "real_of_int (1050 * scale * WL) \<le> 1050 * S * W / V * real_of_int VU"
      by (simp add: S_def)
  qed
  then have FXLO: "real_of_int FXLO \<le> Fx"
    unfolding FXLO_def Fx_def S_def by (auto simp add: min_def)
  have "1050 * S * W / V \<le> real_of_int (cdiv (1050 * scale * WU) VL)"
  proof (rule cdiv_upper)
    show "0 < VL" by (rule chk)
    have "W * real_of_int VL \<le> real_of_int WU * V"
      using W(2) V(1) VLpos Wpos by (intro mult_mono) simp_all
    then have "W * real_of_int VL / V \<le> real_of_int WU"
      using Vpos by (simp add: divide_le_eq)
    then have "1050 * S * (W * real_of_int VL / V) \<le> 1050 * S * real_of_int WU"
      using Spos by (intro mult_left_mono) simp_all
    then show "1050 * S * W / V * real_of_int VL \<le> real_of_int (1050 * scale * WU)"
      by (simp add: S_def)
  qed
  then have FXHI: "Fx \<le> real_of_int FXHI"
    unfolding FXHI_def Fx_def S_def by (auto simp add: min_def)
  txt \<open>the three updates\<close>
  show "real_of_int XL' \<le> X + (400000 * V + Fx - Fl) / 40000000"
  proof -
    have "real_of_int ((400000 * VL + FXLO - FHI) div 40000000)
            \<le> (400000 * V + Fx - Fl) / 40000000"
      using V(1) FXLO FHI by (intro div_lower) simp_all
    then show ?thesis using X(1) unfolding out of_int_add by linarith
  qed
  show "X + (400000 * V + Fx - Fl) / 40000000 \<le> real_of_int XU'"
  proof -
    have "(400000 * V + Fx - Fl) / 40000000
            \<le> real_of_int (cdiv (400000 * VU + FXHI - FLO) 40000000)"
      using V(2) FXHI FLO by (intro cdiv_upper) simp_all
    then show ?thesis using X(2) unfolding out of_int_add by linarith
  qed
  show "real_of_int VL' \<le> V + (Fx - Fl) / 200000"
  proof -
    have "real_of_int ((FXLO - FHI) div 200000) \<le> (Fx - Fl) / 200000"
      using FXLO FHI by (intro div_lower) simp_all
    then show ?thesis using V(1) unfolding out of_int_add by linarith
  qed
  show "V + (Fx - Fl) / 200000 \<le> real_of_int VU'"
  proof -
    have "(Fx - Fl) / 200000 \<le> real_of_int (cdiv (FXHI - FLO) 200000)"
      using FXHI FLO by (intro cdiv_upper) simp_all
    then show ?thesis using V(2) unfolding out of_int_add by linarith
  qed
  have TNr: "0 \<le> real_of_int TN" using TN by simp
  show "real_of_int WL' \<le> W + (real_of_int TN * Q - 1050 * Fl) / 10000000"
  proof -
    have "real_of_int TN * real_of_int QLO \<le> real_of_int TN * Q"
      using TNr QLO by (rule mult_left_mono [rotated])
    then have "real_of_int ((TN * QLO - 1050 * FHI) div 10000000)
            \<le> (real_of_int TN * Q - 1050 * Fl) / 10000000"
      using FHI by (intro div_lower) simp_all
    then show ?thesis using W(1) unfolding out of_int_add by linarith
  qed
  show "W + (real_of_int TN * Q - 1050 * Fl) / 10000000 \<le> real_of_int WU'"
  proof -
    have "real_of_int TN * Q \<le> real_of_int TN * real_of_int QHI"
      using TNr QHI by (rule mult_left_mono [rotated])
    then have "(real_of_int TN * Q - 1050 * Fl) / 10000000
            \<le> real_of_int (cdiv (TN * QHI - 1050 * FLO) 10000000)"
      using FLO by (intro cdiv_upper) simp_all
    then show ?thesis using W(2) unfolding out of_int_add by linarith
  qed
qed

lemma default_parameters:
  assumes "parameters self = parameters Vehicle"
  shows "a_0 self = 400" "a_1 self = 0.1" "a_2 self = - 0.0002" "GR self = 0.35"
    "r_e self = 0.3" "J_e self = 10" "m self = 2000" "g self = 9.81" "c_a self = 1.36"
    "c_r1 self = 0.01" "c self = 10000" "F_max self = 10000" "sample_time self = 0.01"
  using assms by (simp_all add: parameters_def Vehicle_def)

lemma step_returns_fields:
  fixes self :: vehicle and throttle alpha :: real
  assumes "v self \<noteq> 0"
  defines "f_load \<equiv> c_a self * (v self)\<^sup>2 + c_r1 self * v self + m self * g self * sin alpha"
  defines "s \<equiv> (GR self * w_e self * r_e self - v self) / v self"
  defines "A \<equiv> ((if \<bar>s\<bar> < 1 then c self * s else F_max self) - f_load) / m self"
  defines "Wd \<equiv> (throttle * (a_0 self + a_1 self * w_e self + a_2 self * (w_e self)\<^sup>2)
                   - GR self * r_e self * f_load) / J_e self"
  shows "\<exists>self'. step self throttle alpha = Inr self'
           \<and> numpy_scalars self'
           \<and> w_e self' = w_e self + Wd * sample_time self
           \<and> v self' = v self + A * sample_time self
           \<and> x self' = x self + ((v self + A * sample_time self) * sample_time self
                                   - 0.5 * A * (sample_time self)\<^sup>2)"
  using assms(1) unfolding f_load_def s_def A_def Wd_def
  by (simp add: step_def Let_def)

lemma step_default:
  fixes self :: vehicle and throttle alpha :: real
  assumes par: "parameters self = parameters Vehicle"
    and vpos: "0 < v self" and wpos: "0 < w_e self"
  defines "Fl \<equiv> 1.36 * (v self * v self) + 0.01 * v self + 19620 * sin alpha"
  defines "Fx \<equiv> min (1050 * w_e self / v self - 10000) 10000"
  shows "\<exists>self'. step self throttle alpha = Inr self'
           \<and> parameters self' = parameters Vehicle
           \<and> numpy_scalars self'
           \<and> x self' = x self + (400000 * v self + Fx - Fl) / 40000000
           \<and> v self' = v self + (Fx - Fl) / 200000
           \<and> w_e self' = w_e self
                + (throttle * (400 + 0.1 * w_e self - 0.0002 * (w_e self * w_e self))
                   - 0.105 * Fl) / 1000"
proof -
  note p = default_parameters [OF par]
  define s where "s = (0.35 * w_e self * 0.3 - v self) / v self"
  define A where "A = ((if \<bar>s\<bar> < 1 then 10000 * s else 10000)
                        - (1.36 * (v self)\<^sup>2 + 0.01 * v self + 2000 * 9.81 * sin alpha)) / 2000"
  define Wd where "Wd = (throttle * (400 + 0.1 * w_e self + - 0.0002 * (w_e self)\<^sup>2)
        - 0.35 * 0.3 * (1.36 * (v self)\<^sup>2 + 0.01 * v self + 2000 * 9.81 * sin alpha)) / 10"
  have "v self \<noteq> 0" using vpos by simp
  from step_returns_fields [OF this, of throttle alpha]
  obtain self' where st: "step self throttle alpha = Inr self'"
    and np: "numpy_scalars self'"
    and w': "w_e self' = w_e self + Wd * 0.01"
    and v': "v self' = v self + A * 0.01"
    and x': "x self' = x self + ((v self + A * 0.01) * 0.01 - 0.5 * A * (0.01)\<^sup>2)"
    unfolding p A_def Wd_def s_def by blast
  have s_eq: "s = 0.105 * w_e self / v self - 1"
    using vpos by (simp add: s_def field_simps)
  have "0 < w_e self / v self" using vpos wpos by simp
  then have s_low: "- 1 < s" using s_eq by simp
  have s10: "10000 * s = 1050 * w_e self / v self - 10000" using s_eq by simp
  have force: "(if \<bar>s\<bar> < 1 then 10000 * s else 10000) = Fx"
  proof (cases "s < 1")
    case True
    then have "\<bar>s\<bar> < 1" using s_low by simp
    then show ?thesis using True s10 by (simp add: Fx_def min_def)
  next
    case False
    then have "\<not> \<bar>s\<bar> < 1" by simp
    then show ?thesis using False s10 by (simp add: Fx_def min_def)
  qed
  have load: "1.36 * (v self)\<^sup>2 + 0.01 * v self + 2000 * 9.81 * sin alpha = Fl"
    by (simp add: Fl_def power2_eq_square)
  have A: "A = (Fx - Fl) / 2000"
    unfolding A_def force load by (rule refl)
  have Wd: "Wd = (throttle * (400 + 0.1 * w_e self - 0.0002 * (w_e self * w_e self))
                   - 0.105 * Fl) / 10"
    unfolding Wd_def load by (simp add: power2_eq_square)
  have pp: "parameters self' = parameters Vehicle"
    using step_parameters [of self throttle alpha] st par by simp
  have "x self' = x self + (400000 * v self + Fx - Fl) / 40000000"
    unfolding x' A by (simp add: power2_eq_square field_simps)
  moreover have "v self' = v self + (Fx - Fl) / 200000"
    unfolding v' A by simp
  moreover have "w_e self' = w_e self
                + (throttle * (400 + 0.1 * w_e self - 0.0002 * (w_e self * w_e self))
                   - 0.105 * Fl) / 1000"
    unfolding w' Wd by simp
  ultimately show ?thesis using st pp np by blast
qed

section \<open>Bounds on the scenario run\<close>

text \<open>
  The grade force on the first incline, one box step against one call of \<open>step\<close>, and the
  run of boxes against the driver loop.
\<close>

lemma grade_force_alpha1:
  "real_of_int G1L \<le> real_of_int scale * (19620 * sin alpha1)"
  "real_of_int scale * (19620 * sin alpha1) \<le> real_of_int G1U"
proof -
  have sq: "sqrt (1 + (3 / 60)\<^sup>2) = sqrt 401 / 20"
  proof -
    have "1 + (3 / 60 :: real)\<^sup>2 = 401 / 20\<^sup>2" by (simp add: power2_eq_square)
    then have "sqrt (1 + (3 / 60)\<^sup>2) = sqrt 401 / sqrt (20\<^sup>2)"
      by (simp only: real_sqrt_divide)
    then show ?thesis by simp
  qed
  have pos: "0 < sqrt (401::real)" by simp
  have s: "sin alpha1 = 1 / sqrt 401"
    unfolding alpha1_def sin_arctan sq by simp
  have lo: "(20024984394 / 1000000000 :: real) \<le> sqrt 401"
    by (rule real_le_rsqrt) (simp add: power2_eq_square)
  have hi: "sqrt 401 \<le> (20024984395 / 1000000000 :: real)"
    by (rule real_le_lsqrt) (simp_all add: power2_eq_square)
  have "real_of_int G1L * sqrt 401 \<le> 9797760444 * (20024984395 / 1000000000)"
    unfolding G1L_def using hi by simp
  also have "\<dots> \<le> real_of_int scale * 19620"
    by (simp add: scale_def)
  finally have "real_of_int G1L \<le> real_of_int scale * 19620 / sqrt 401"
    using pos by (simp add: le_divide_eq)
  then show "real_of_int G1L \<le> real_of_int scale * (19620 * sin alpha1)"
    by (simp add: s)
  have "real_of_int scale * 19620 \<le> 9797760445 * (20024984394 / 1000000000 :: real)"
    by (simp add: scale_def)
  also have "\<dots> \<le> real_of_int G1U * sqrt 401"
    unfolding G1U_def using lo by simp
  finally have "real_of_int scale * 19620 / sqrt 401 \<le> real_of_int G1U"
    using pos by (simp add: divide_le_eq)
  then show "real_of_int scale * (19620 * sin alpha1) \<le> real_of_int G1U"
    by (simp add: s)
qed

lemma istep_sound:
  assumes box: "inbox b self"
    and st: "istep TN G1L G1U b = Some b1"
    and TN: "0 \<le> TN"
    and thr: "throttle = real_of_int TN / 10000"
  shows "\<exists>self'. step self throttle alpha1 = Inr self' \<and> inbox b1 self'"
proof -
  obtain XL XU VL VU WL WU where b: "b = (XL, XU, VL, VU, WL, WU)"
    by (cases b) auto
  obtain XL' XU' VL' VU' WL' WU' where b1: "b1 = (XL', XU', VL', VU', WL', WU')"
    by (cases b1) auto
  define S where "S = real_of_int scale"
  have Spos: "0 < S" by (simp add: S_def scale_def)
  have chk: "0 < VL" "0 < WL"
    using st unfolding b by (auto simp: istep_def split: if_splits)
  have par: "parameters self = parameters Vehicle"
    and X: "real_of_int XL \<le> S * x self" "S * x self \<le> real_of_int XU"
    and V: "real_of_int VL \<le> S * v self" "S * v self \<le> real_of_int VU"
    and W: "real_of_int WL \<le> S * w_e self" "S * w_e self \<le> real_of_int WU"
    using box unfolding b inbox_def S_def by simp_all
  have "0 < S * v self" using chk(1) V(1) by (simp add: less_le_trans)
  then have vpos: "0 < v self" using Spos by (simp add: zero_less_mult_iff)
  have "0 < S * w_e self" using chk(2) W(1) by (simp add: less_le_trans)
  then have wpos: "0 < w_e self" using Spos by (simp add: zero_less_mult_iff)
  define Fl where "Fl = 1.36 * (v self * v self) + 0.01 * v self + 19620 * sin alpha1"
  define Fx where "Fx = min (1050 * w_e self / v self - 10000) 10000"
  from step_default [OF par vpos wpos, of throttle alpha1]
  obtain self' where run: "step self throttle alpha1 = Inr self'"
    and par': "parameters self' = parameters Vehicle"
    and x': "x self' = x self + (400000 * v self + Fx - Fl) / 40000000"
    and v': "v self' = v self + (Fx - Fl) / 200000"
    and w': "w_e self' = w_e self
                + (throttle * (400 + 0.1 * w_e self - 0.0002 * (w_e self * w_e self))
                   - 0.105 * Fl) / 1000"
    unfolding Fl_def Fx_def by blast
  define G where "G = S * (19620 * sin alpha1)"
  have Gb: "real_of_int G1L \<le> G" "G \<le> real_of_int G1U"
    unfolding G_def S_def by (rule grade_force_alpha1)+
  let ?V = "S * v self" and ?W = "S * w_e self" and ?X = "S * x self"
  have sFl: "(136 * ?V * ?V + S * ?V) / (100 * S) + G = S * Fl"
    using Spos by (simp add: Fl_def G_def field_simps)
  have sQ: "400 * S + (1000 * S * ?W - 2 * ?W * ?W) / (10000 * S)
              = S * (400 + 0.1 * w_e self - 0.0002 * (w_e self * w_e self))"
    using Spos by (simp add: field_simps)
  have ratio: "1050 * S * ?W / ?V = S * (1050 * w_e self / v self)"
    using Spos vpos by (simp add: field_simps)
  have sFx: "min (1050 * S * ?W / ?V - 10000 * S) (10000 * S) = S * Fx"
  proof -
    have "S * Fx = min (S * (1050 * w_e self / v self - 10000)) (S * 10000)"
      unfolding Fx_def using Spos by (simp add: min_mult_distrib_left)
    then show ?thesis unfolding ratio by (simp add: algebra_simps)
  qed
  note bs = box_step_sound [OF st [unfolded b b1] X V W Gb TN,
      folded S_def, unfolded sFl sQ sFx]
  have nx: "S * x self' = ?X + (400000 * ?V + S * Fx - S * Fl) / 40000000"
    unfolding x' by (simp add: field_simps)
  have nv: "S * v self' = ?V + (S * Fx - S * Fl) / 200000"
    unfolding v' by (simp add: field_simps)
  have nw: "S * w_e self' = ?W + (real_of_int TN
        * (S * (400 + 0.1 * w_e self - 0.0002 * (w_e self * w_e self))) - 1050 * (S * Fl))
        / 10000000"
    unfolding w' thr by (simp add: field_simps)
  have "inbox b1 self'"
    unfolding b1 inbox_def using par' bs
    by (simp add: nx nv nw S_def [symmetric])
  then show ?thesis using run by blast
qed

lemma throttle_num_t_data:
  assumes "i \<le> 1500"
  shows "t_data ! i = real_of_int (throttle_num i) / 10000" and "0 \<le> throttle_num i"
proof -
  show "0 \<le> throttle_num i" by (simp add: throttle_num_def)
  show "t_data ! i = real_of_int (throttle_num i) / 10000"
  proof (cases "i < 500")
    case True
    then show ?thesis using t_data_nth(2) [of i] by (simp add: throttle_num_def field_simps)
  next
    case False
    then show ?thesis using t_data_nth(3) [of i] assms by (simp add: throttle_num_def)
  qed
qed

lemma ibox_from_sound:
  assumes "ibox_from i j b = Some b'" and "inbox b (model_at model i)" and "j \<le> 1501"
    and "i \<le> j"
  shows "inbox b' (model_at model j) \<and> (\<forall>k. i \<le> k \<and> k < j \<longrightarrow> x (model_at model k) < 60)"
  using assms
proof (induction i j b rule: ibox_from.induct)
  case (1 i j b)
  show ?case
  proof (cases "i < j")
    case False
    then have "b' = b" using "1.prems"(1) by (simp add: ibox_from.simps)
    moreover have "j = i" using False "1.prems"(4) by simp
    ultimately show ?thesis
      using "1.prems"(2) by simp
  next
    case True
    obtain XL XU VL VU WL WU where b: "b = (XL, XU, VL, VU, WL, WU)"
      by (cases b) auto
    have below: "fst (snd b) < 60 * scale"
      using "1.prems"(1) True
      by (subst (asm) ibox_from.simps) (simp split: if_splits)
    obtain b1 where st: "istep (throttle_num i) G1L G1U b = Some b1"
      and rest: "ibox_from (i + 1) j b1 = Some b'"
      using "1.prems"(1) True below
      by (subst (asm) ibox_from.simps) (simp split: option.splits)
    have "real_of_int scale * x (model_at model i) \<le> real_of_int XU"
      using "1.prems"(2) unfolding b inbox_def by simp
    also have "\<dots> < real_of_int scale * 60"
      using below unfolding b
      by (metis fst_conv snd_conv of_int_less_iff of_int_mult of_int_numeral mult.commute)
    finally have x60: "x (model_at model i) < 60"
      by (simp add: scale_def)
    have i1500: "i \<le> 1500" using True "1.prems"(3) by simp
    from istep_sound [OF "1.prems"(2) st throttle_num_t_data(2) throttle_num_t_data(1), OF i1500 i1500]
    obtain self' where run: "step (model_at model i) (t_data ! i) alpha1 = Inr self'"
      and box': "inbox b1 self'"
      by blast
    have next_model: "model_at model (i + 1) = self'"
      using x60 run by (simp add: Let_def)
    have IH: "inbox b' (model_at model j)
              \<and> (\<forall>k. i + 1 \<le> k \<and> k < j \<longrightarrow> x (model_at model k) < 60)"
      using "1.IH" [OF True below st rest]
          box' next_model "1.prems"(3) True
      by simp
    have "x (model_at model k) < 60" if "i \<le> k" "k < j" for k
    proof (cases "k = i")
      case True
      then show ?thesis using x60 by simp
    next
      case False
      then have "i + 1 \<le> k" using that by simp
      then show ?thesis using IH that by blast
    qed
    then show ?thesis using IH by blast
  qed
qed

lemma box_run_0_100:
  "ibox_from 0 100 (0, 0, 50000000, 50000000, 1000000000, 1000000000)
     = Some (65406754, 65406934, 75413922, 75414124, 984661748, 984661861)"
  by code_simp

lemma box_run_100_200:
  "ibox_from 100 200 (65406754, 65406934, 75413922, 75414124, 984661748, 984661861)
     = Some (145917201, 145917867, 84455217, 84455845, 990694208, 990694509)"
  by code_simp

lemma box_run_200_300:
  "ibox_from 200 300 (145917201, 145917867, 84455217, 84455845, 990694208, 990694509)
     = Some (233048024, 233049784, 89505361, 89506813, 1019655380, 1019656033)"
  by code_simp

lemma box_run_300_400:
  "ibox_from 300 400 (233048024, 233049784, 89505361, 89506813, 1019655380, 1019656033)
     = Some (324702654, 324706674, 93826099, 93829126, 1072040709, 1072042025)"
  by code_simp

lemma box_run_400_500:
  "ibox_from 400 500 (324702654, 324706674, 93826099, 93829126, 1072040709, 1072042025)
     = Some (420908740, 420917219, 98749455, 98755461, 1147871441, 1147874058)"
  by code_simp

lemma box_run_500_600:
  "ibox_from 500 600 (420908740, 420917219, 98749455, 98755461, 1147871441, 1147874058)
     = Some (522552083, 522569149, 104673102, 104684626, 1234768892, 1234774083)"
  by code_simp

lemma box_run_600_672:
  "ibox_from 600 672 (522552083, 522569149, 104673102, 104684626, 1234768892, 1234774083)
     = Some (599570909, 599598534, 109299864, 109317911, 1296328754, 1296337221)"
  by code_simp

lemma box_run_672_673:
  "ibox_from 672 673 (599570909, 599598534, 109299864, 109317911, 1296328754, 1296337221)
     = Some (600664234, 600692041, 109365306, 109383463, 1297177234, 1297185758)"
  by code_simp

section \<open>The driver loop\<close>

text \<open>
  The loop never raises: the reset velocity is 5, and after a step the state holds numpy
  scalars. Its \<^verbatim>\<open>x_data\<close> holds the positions of \<open>model_at\<close>.
\<close>

lemma step_safe:
  assumes "v self \<noteq> 0 \<or> numpy_scalars self"
  shows "\<exists>self'. step self throttle alpha = Inr self' \<and> numpy_scalars self'"
  using assms by (auto simp add: step_def Let_def)

lemma model_at_safe: "v (model_at model k) \<noteq> 0 \<or> numpy_scalars (model_at model k)"
proof (induction k)
  case 0
  show ?case by (simp add: reset_def)
next
  case (Suc k)
  let ?mk = "model_at model k"
  obtain alpha where
    body: "(if x ?mk < 60 then step ?mk (t_data ! k) alpha1
            else if x ?mk < 150 then step ?mk (t_data ! k) alpha2
            else step ?mk (t_data ! k) 0) = step ?mk (t_data ! k) alpha"
    by (cases "x ?mk < 60"; cases "x ?mk < 150") auto
  obtain self' where "step ?mk (t_data ! k) alpha = Inr self'" and "numpy_scalars self'"
    using step_safe [OF Suc.IH] by blast
  then show ?case using body by (simp add: Let_def)
qed

lemma loop_body_returns:
  "(if x (model_at model k) < 60 then step (model_at model k) (t_data ! k) alpha1
    else if x (model_at model k) < 150 then step (model_at model k) (t_data ! k) alpha2
    else step (model_at model k) (t_data ! k) 0) = Inr (model_at model (Suc k))"
proof -
  let ?mk = "model_at model k"
  obtain alpha where
    body: "(if x ?mk < 60 then step ?mk (t_data ! k) alpha1
            else if x ?mk < 150 then step ?mk (t_data ! k) alpha2
            else step ?mk (t_data ! k) 0) = step ?mk (t_data ! k) alpha"
    by (cases "x ?mk < 60"; cases "x ?mk < 150") auto
  obtain self' where "step ?mk (t_data ! k) alpha = Inr self'"
    using step_safe [OF model_at_safe] by blast
  then show ?thesis using body by (simp add: Let_def)
qed

lemma scenario_loop_upt:
  assumes "i \<le> j" and "j \<le> length x_data"
  shows "\<exists>v1_data'.
           scenario_loop t_data [i..<j] (model_at model i, x_data, v1_data)
             = Inr (model_at model j,
                    map (\<lambda>k. if i \<le> k \<and> k < j then x (model_at model k) else x_data ! k)
                      [0..<length x_data],
                    v1_data')"
  using assms
proof (induction "j - i" arbitrary: i x_data v1_data)
  case 0
  then have "i = j" by simp
  then have "(\<lambda>k. if i \<le> k \<and> k < j then x (model_at model k) else x_data ! k)
               = (\<lambda>k. x_data ! k)"
    by auto
  then show ?case using \<open>i = j\<close> by (simp add: map_nth)
next
  case (Suc n)
  then have lt: "i < j" by simp
  let ?xd = "x_data[i := x (model_at model i)]"
  let ?vd = "v1_data[i := v (model_at model i)]"
  have unf: "scenario_loop t_data [i..<j] (model_at model i, x_data, v1_data)
               = scenario_loop t_data [Suc i..<j] (model_at model (Suc i), ?xd, ?vd)"
    using lt loop_body_returns [of model i]
    by (simp add: upt_conv_Cons Let_def del: model_at.simps)
  have "n = j - Suc i" "Suc i \<le> j" "j \<le> length ?xd"
    using Suc.hyps(2) lt Suc.prems(2) by simp_all
  from Suc.hyps(1) [OF this, of ?vd]
  obtain v1_data' where IH:
    "scenario_loop t_data [Suc i..<j] (model_at model (Suc i), ?xd, ?vd)
       = Inr (model_at model j,
              map (\<lambda>k. if Suc i \<le> k \<and> k < j then x (model_at model k) else ?xd ! k)
                [0..<length ?xd],
              v1_data')"
    by blast
  have "map (\<lambda>k. if Suc i \<le> k \<and> k < j then x (model_at model k) else ?xd ! k)
            [0..<length ?xd]
        = map (\<lambda>k. if i \<le> k \<and> k < j then x (model_at model k) else x_data ! k)
            [0..<length x_data]"
    using lt Suc.prems(2) by (auto simp: nth_list_update)
  then show ?case using unf IH by simp
qed

lemma scenario_returns:
  "\<exists>v1_data. scenario model
      = Inr (model_at model 2000, map (\<lambda>k. x (model_at model k)) [0..<2000], v1_data)"
proof -
  have len: "length t_data = 2000" by (rule t_data_nth(1))
  obtain v1_data where
    "scenario_loop t_data [0..<2000] (model_at model 0, replicate 2000 0, replicate 2000 0)
       = Inr (model_at model 2000,
              map (\<lambda>k. if 0 \<le> k \<and> k < 2000 then x (model_at model k)
                        else replicate 2000 0 ! k) [0..<length (replicate 2000 (0::real))],
              v1_data)"
    using scenario_loop_upt [of 0 2000 "replicate 2000 0" model "replicate 2000 0"] by auto
  moreover have "map (\<lambda>k. if 0 \<le> k \<and> k < 2000 then x (model_at model k)
                        else replicate 2000 0 ! k) [0..<length (replicate 2000 (0::real))]
      = map (\<lambda>k. x (model_at model k)) [0..<2000]"
    by (simp del: upt_rec_numeral)
  ultimately show ?thesis
    unfolding scenario_def len Let_def by (simp del: upt_rec_numeral)
qed

lemma first_crossing_eq:
  assumes "\<And>k. k < n \<Longrightarrow> xs ! k < level" and "n < length xs" and "level \<le> xs ! n"
  shows "first_crossing level xs = n"
proof -
  have "takeWhile (\<lambda>y. y < level) xs = take n xs"
    using assms by (intro takeWhile_eq_take_P_nth) simp_all
  then show ?thesis using assms(2) by (simp add: first_crossing_def)
qed

lemma model_at_below_60:
  assumes "parameters model = parameters Vehicle"
  shows "\<forall>k<673. x (model_at model k) < 60"
    and "59.95 < x (model_at model 672)" and "x (model_at model 672) < 59.96"
    and "60.06 < x (model_at model 673)" and "x (model_at model 673) < 60.07"
proof -
  have "model_at model 0 = Vehicle"
    using assms by (simp add: reset_eq_Vehicle)
  then have start: "inbox (0, 0, 50000000, 50000000, 1000000000, 1000000000) (model_at model 0)"
    unfolding inbox_def by (simp add: Vehicle_def scale_def)
  have r100: "inbox (65406754, 65406934, 75413922, 75414124, 984661748, 984661861) (model_at model 100)
      \<and> (\<forall>k. 0 \<le> k \<and> k < 100 \<longrightarrow> x (model_at model k) < 60)"
    using ibox_from_sound [OF box_run_0_100, of model] start by simp
  have r200: "inbox (145917201, 145917867, 84455217, 84455845, 990694208, 990694509) (model_at model 200)
      \<and> (\<forall>k. 100 \<le> k \<and> k < 200 \<longrightarrow> x (model_at model k) < 60)"
    using ibox_from_sound [OF box_run_100_200, of model] r100 by simp
  have r300: "inbox (233048024, 233049784, 89505361, 89506813, 1019655380, 1019656033) (model_at model 300)
      \<and> (\<forall>k. 200 \<le> k \<and> k < 300 \<longrightarrow> x (model_at model k) < 60)"
    using ibox_from_sound [OF box_run_200_300, of model] r200 by simp
  have r400: "inbox (324702654, 324706674, 93826099, 93829126, 1072040709, 1072042025) (model_at model 400)
      \<and> (\<forall>k. 300 \<le> k \<and> k < 400 \<longrightarrow> x (model_at model k) < 60)"
    using ibox_from_sound [OF box_run_300_400, of model] r300 by simp
  have r500: "inbox (420908740, 420917219, 98749455, 98755461, 1147871441, 1147874058) (model_at model 500)
      \<and> (\<forall>k. 400 \<le> k \<and> k < 500 \<longrightarrow> x (model_at model k) < 60)"
    using ibox_from_sound [OF box_run_400_500, of model] r400 by simp
  have r600: "inbox (522552083, 522569149, 104673102, 104684626, 1234768892, 1234774083) (model_at model 600)
      \<and> (\<forall>k. 500 \<le> k \<and> k < 600 \<longrightarrow> x (model_at model k) < 60)"
    using ibox_from_sound [OF box_run_500_600, of model] r500 by simp
  have r672: "inbox (599570909, 599598534, 109299864, 109317911, 1296328754, 1296337221) (model_at model 672)
      \<and> (\<forall>k. 600 \<le> k \<and> k < 672 \<longrightarrow> x (model_at model k) < 60)"
    using ibox_from_sound [OF box_run_600_672, of model] r600 by simp
  have r673: "inbox (600664234, 600692041, 109365306, 109383463, 1297177234, 1297185758) (model_at model 673)
      \<and> (\<forall>k. 672 \<le> k \<and> k < 673 \<longrightarrow> x (model_at model k) < 60)"
    using ibox_from_sound [OF box_run_672_673, of model] r672 by simp
  show "\<forall>k<673. x (model_at model k) < 60"
  proof (intro allI impI)
    fix k :: nat
    assume "k < 673"
    then consider "0 \<le> k \<and> k < 100"
      | "100 \<le> k \<and> k < 200"
      | "200 \<le> k \<and> k < 300"
      | "300 \<le> k \<and> k < 400"
      | "400 \<le> k \<and> k < 500"
      | "500 \<le> k \<and> k < 600"
      | "600 \<le> k \<and> k < 672"
      | "672 \<le> k \<and> k < 673"
      by linarith
    then show "x (model_at model k) < 60"
      using r100 r200 r300 r400 r500 r600 r672 r673 by cases simp_all
  qed
  have "real_of_int 599570909 \<le> real_of_int scale * x (model_at model 672)"
    and "real_of_int scale * x (model_at model 672) \<le> real_of_int 599598534"
    using r672 unfolding inbox_def by simp_all
  then show "59.95 < x (model_at model 672)" and "x (model_at model 672) < 59.96"
    by (simp_all add: scale_def)
  have "real_of_int 600664234 \<le> real_of_int scale * x (model_at model 673)"
    and "real_of_int scale * x (model_at model 673) \<le> real_of_int 600692041"
    using r673 unfolding inbox_def by simp_all
  then show "60.06 < x (model_at model 673)" and "x (model_at model 673) < 60.07"
    by (simp_all add: scale_def)
qed

lemma scenario_positions:
  assumes "parameters model = parameters Vehicle"
  shows "\<exists>model' x_data v1_data.
           scenario model = Inr (model', x_data, v1_data)
           \<and> length x_data = 2000
           \<and> (\<forall>k<673. x_data ! k < 60)
           \<and> 59.95 < x_data ! 672 \<and> x_data ! 672 < 59.96
           \<and> 60.06 < x_data ! 673 \<and> x_data ! 673 < 60.07"
proof -
  obtain v1_data where run: "scenario model
      = Inr (model_at model 2000, map (\<lambda>k. x (model_at model k)) [0..<2000], v1_data)"
    using scenario_returns by blast
  let ?xs = "map (\<lambda>k. x (model_at model k)) [0..<2000]"
  have len: "length ?xs = 2000" by simp
  have nth: "?xs ! k = x (model_at model k)" if "k < 2000" for k
    using that by (simp del: upt_rec_numeral)
  have "\<forall>k<673. ?xs ! k < 60"
    using model_at_below_60(1) [OF assms] nth by simp
  moreover have "59.95 < ?xs ! 672" "?xs ! 672 < 59.96"
    using model_at_below_60(2,3) [OF assms] nth [of 672] by simp_all
  moreover have "60.06 < ?xs ! 673" "?xs ! 673 < 60.07"
    using model_at_below_60(4,5) [OF assms] nth [of 673] by simp_all
  ultimately show ?thesis using run len by blast
qed

section \<open>The crossing of the 60 m mark\<close>

text \<open>
  C9 (as amended). Started on any model with the constructor's parameters, the scenario
  cell returns with 2000 position samples; the sample with index 672 lies between
  59.95 m and 59.96 m and the sample with index 673 between 60.06 m and 60.07 m, so the
  position first reaches 60 m at the sample 673, at the simulated time 6.73 s.
\<close>

theorem scenario_crosses_60m:
  assumes "parameters model = parameters Vehicle"
  shows "\<exists>model' x_data v1_data.
           scenario model = Inr (model', x_data, v1_data)
           \<and> length x_data = 2000
           \<and> 59.95 < x_data ! 672 \<and> x_data ! 672 < 59.96
           \<and> 60.06 < x_data ! 673 \<and> x_data ! 673 < 60.07
           \<and> first_crossing 60 x_data = 673
           \<and> ti_data ! first_crossing 60 x_data = 6.73"
proof -
  obtain model' x_data v1_data where run: "scenario model = Inr (model', x_data, v1_data)"
    and len: "length x_data = 2000"
    and below: "\<forall>k<673. x_data ! k < 60"
    and b672: "59.95 < x_data ! 672" "x_data ! 672 < 59.96"
    and b673: "60.06 < x_data ! 673" "x_data ! 673 < 60.07"
    using scenario_positions [OF assms] by blast
  have fc: "first_crossing 60 x_data = 673"
    using below len b673(1) by (intro first_crossing_eq) simp_all
  have "ti_data ! 673 = 6.73"
    using ti_data_nth [of 673] by simp
  then show ?thesis using run len b672 b673 fc by simp
qed

theorem scenario_crosses_60m_witness:
  "parameters Vehicle = parameters Vehicle
   \<and> \<not> isl (scenario Vehicle)
   \<and> length (positions (scenario Vehicle)) = 2000
   \<and> first_crossing 60 (positions (scenario Vehicle)) = 673
   \<and> ti_data ! first_crossing 60 (positions (scenario Vehicle)) = 6.73"
proof -
  have p: "parameters Vehicle = parameters Vehicle" by simp
  from scenario_crosses_60m [OF p]
  obtain model' x_data v1_data where "scenario Vehicle = Inr (model', x_data, v1_data)"
    and "length x_data = 2000"
    and "first_crossing 60 x_data = 673"
    and "ti_data ! first_crossing 60 x_data = 6.73"
    by blast
  then show ?thesis by simp
qed

text \<open>
  The claim as written has the first crossing of 60 m at a simulated time within
  0.5 s of 15 s. On a new vehicle the crossing is at 6.73 s.
\<close>

theorem scenario_crossing_time_counterexample:
  "\<not> (14.5 \<le> ti_data ! first_crossing 60 (positions (scenario Vehicle))
      \<and> ti_data ! first_crossing 60 (positions (scenario Vehicle)) \<le> 15.5)"
proof -
  obtain model' x_data v1_data where run: "scenario Vehicle = Inr (model', x_data, v1_data)"
    and len: "length x_data = 2000"
    and below: "\<forall>k<673. x_data ! k < 60"
    and above: "60.06 < x_data ! 673"
    using scenario_positions [of Vehicle] by blast
  have fc: "first_crossing 60 x_data = 673"
    using below len above by (intro first_crossing_eq) simp_all
  have "ti_data ! 673 = 6.73"
    using ti_data_nth [of 673] by simp
  then show ?thesis using run fc by simp
qed

end
